theory Spec2Isabelle
  imports Complex_Main
begin

section \<open>Data model\<close>

text \<open>
  The module \<^verbatim>\<open>lib/util/get-npmignore.js\<close> decides which files of a package npm would leave
  out of a publish. It reads three fields of the object that \<^verbatim>\<open>getPackageJson\<close> returns:
  \<^verbatim>\<open>filePath\<close> (a string), and \<^verbatim>\<open>files\<close> and \<^verbatim>\<open>main\<close>, which hold whatever JavaScript value
  the manifest gave them. The code inspects those two only through truthiness,
  \<^verbatim>\<open>Array.isArray\<close> and \<^verbatim>\<open>typeof ... === "string"\<close>, so a JavaScript value is modelled as the
  datatype below; \<open>JUndefined\<close> is an absent field. A JavaScript string is modelled as a
  \<open>string\<close> (a list of characters).
\<close>

datatype jsval =
    JUndefined
  | JNull
  | JBool bool
  | JNum real
  | JStr string
  | JArr "jsval list"
  | JObj "(string \<times> jsval) list"

text \<open>
  JavaScript truthiness (\<^verbatim>\<open>!files\<close>), \<^verbatim>\<open>Array.isArray\<close> and \<^verbatim>\<open>typeof v === "string"\<close>. The
  falsy values are \<^verbatim>\<open>undefined\<close>, \<^verbatim>\<open>null\<close>, \<^verbatim>\<open>false\<close>, zero and the empty string; the value of
  a number is read nowhere else.
\<close>

fun truthy :: "jsval \<Rightarrow> bool" where
  "truthy JUndefined = False"
| "truthy JNull = False"
| "truthy (JBool b) = b"
| "truthy (JNum r) = (r \<noteq> 0)"
| "truthy (JStr s) = (s \<noteq> [])"
| "truthy (JArr xs) = True"
| "truthy (JObj kvs) = True"

fun isArray :: "jsval \<Rightarrow> bool" where
  "isArray (JArr xs) = True"
| "isArray v = False"

fun isString :: "jsval \<Rightarrow> bool" where
  "isString (JStr s) = True"
| "isString v = False"

text \<open>The object of \<^verbatim>\<open>package.json\<close>, as far as this module reads it.\<close>

record manifest =
  filePath :: string
  files :: jsval
  main :: jsval

text \<open>The result object: \<^verbatim>\<open>{match: f}\<close>, where \<open>f\<close> maps a path to a boolean.\<close>

record matcher =
  match :: "string \<Rightarrow> bool"

text \<open>
  The module calls into code that lives elsewhere: Node's \<^verbatim>\<open>path\<close> module, the
  \<^verbatim>\<open>ignore\<close> package, and the helpers \<^verbatim>\<open>./exists\<close> and \<^verbatim>\<open>./get-package-json\<close>. They are
  parameters of the model, collected in one record, so that every theorem below holds for
  whatever these collaborators compute. The type \<open>'i\<close> is the state of an \<^verbatim>\<open>Ignore\<close> object:
  \<open>newIgnore\<close> is \<^verbatim>\<open>new Ignore({twoGlobstars: true})\<close>, \<open>addPattern\<close> and \<open>addIgnoreFile\<close>
  return the object after the call, and \<open>createFilter\<close> is the filter compiled from it
  (true for a path the patterns keep).
\<close>

record 'i env =
  path_dirname :: "string \<Rightarrow> string"
  path_join :: "string \<Rightarrow> string \<Rightarrow> string"
  path_basename :: "string \<Rightarrow> string"
  exists :: "string \<Rightarrow> bool"
  getPackageJson :: "string \<Rightarrow> manifest option"
  newIgnore :: "'i"
  addPattern :: "'i \<Rightarrow> string \<Rightarrow> 'i"
  addIgnoreFile :: "'i \<Rightarrow> string \<Rightarrow> 'i"
  createFilter :: "'i \<Rightarrow> string \<Rightarrow> bool"

section \<open>The cache\<close>

text \<open>
  Modelled from the spec: the class \<^verbatim>\<open>Cache\<close> of \<^verbatim>\<open>./cache\<close> is not among the sources. The
  spec gives its interface, \<^verbatim>\<open>get(key) -> Matcher | absent\<close> and
  \<^verbatim>\<open>put(key, value) -> void\<close>, a store keyed by the manifest's file path. The module-level
  variable \<^verbatim>\<open>cache\<close> is passed explicitly: \<open>getNpmignore\<close> takes the store and returns it
  updated.
\<close>

type_synonym cache = "string \<rightharpoonup> matcher"

definition cache_get :: "cache \<Rightarrow> string \<Rightarrow> matcher option" where
  "cache_get c k = c k"

definition cache_put :: "cache \<Rightarrow> string \<Rightarrow> matcher \<Rightarrow> cache" where
  "cache_put c k v = c(k \<mapsto> v)"


section \<open>Helpers\<close>

text \<open>
  \<^verbatim>\<open>TAIL_SLASH = /\/+$/\<close>, used as \<^verbatim>\<open>file.replace(TAIL_SLASH, "")\<close>: the leftmost match of
  one or more slashes that reach the end of the string is the whole trailing run of
  slashes, which is removed.
\<close>

definition strip_TAIL_SLASH :: "string \<Rightarrow> string" where
  "strip_TAIL_SLASH s = rev (dropWhile (\<lambda>c. c = CHR ''/'') (rev s))"

text \<open>
  \<^verbatim>\<open>NEVER_IGNORED =
  /^(?:readme\.[^\.]*|(?:licen[cs]e|changes|changelog|history)(?:\.[^\.]*)?)$/i\<close>.
  The flag \<^verbatim>\<open>i\<close> folds the case of the ASCII letters only (without the flag \<^verbatim>\<open>u\<close> no
  character outside ASCII is identified with an ASCII letter), so the test lowers the ASCII
  capitals and matches the result. \<^verbatim>\<open>[^\.]*\<close> is any run of characters other than a dot.
  The first alternative asks for the dot after \<^verbatim>\<open>readme\<close>; in the second the extension is
  optional.
\<close>

definition lower_ascii :: "char \<Rightarrow> char" where
  "lower_ascii c =
     (if 65 \<le> (of_char c :: nat) \<and> (of_char c :: nat) \<le> 90
      then char_of ((of_char c :: nat) + 32) else c)"

definition no_dot :: "string \<Rightarrow> bool" where
  "no_dot s = (CHR ''.'' \<notin> set s)"

text \<open>\<open>base\<close> followed by \<^verbatim>\<open>\.[^\.]*\<close>, up to the end of the string.\<close>

definition with_ext :: "string \<Rightarrow> string \<Rightarrow> bool" where
  "with_ext base s =
     (take (length base + 1) s = base @ ''.'' \<and> no_dot (drop (length base + 1) s))"

text \<open>\<open>base\<close> followed by \<^verbatim>\<open>(?:\.[^\.]*)?\<close>, up to the end of the string.\<close>

definition with_opt_ext :: "string \<Rightarrow> string \<Rightarrow> bool" where
  "with_opt_ext base s = (s = base \<or> with_ext base s)"

definition NEVER_IGNORED_test :: "string \<Rightarrow> bool" where
  "NEVER_IGNORED_test s =
     (let l = map lower_ascii s in
        with_ext ''readme'' l \<or>
        with_opt_ext ''license'' l \<or>
        with_opt_ext ''licence'' l \<or>
        with_opt_ext ''changes'' l \<or>
        with_opt_ext ''changelog'' l \<or>
        with_opt_ext ''history'' l)"

definition alwaysFalse :: "string \<Rightarrow> bool" where
  "alwaysFalse path = False"

definition and_fn :: "(string \<Rightarrow> bool) \<Rightarrow> (string \<Rightarrow> bool) \<Rightarrow> string \<Rightarrow> bool" where
  "and_fn f g = (\<lambda>path. f path \<and> g path)"

definition or_fn :: "(string \<Rightarrow> bool) \<Rightarrow> (string \<Rightarrow> bool) \<Rightarrow> string \<Rightarrow> bool" where
  "or_fn f g = (\<lambda>path. f path \<or> g path)"

definition not_fn :: "(string \<Rightarrow> bool) \<Rightarrow> string \<Rightarrow> bool" where
  "not_fn f = (\<lambda>path. \<not> f path)"

subsection \<open>filterNeverIgnoredFiles\<close>

text \<open>
  \<^verbatim>\<open>mainFilePath\<close> is a string or \<^verbatim>\<open>null\<close>: an \<open>option\<close>. The comparison
  \<^verbatim>\<open>path.join(basedir, filePath) !== mainFilePath\<close> is strict: a string differs from
  \<^verbatim>\<open>null\<close> whatever its characters, and two strings differ when their contents do. The
  parameter \<^verbatim>\<open>filePath\<close> of the closures is written \<open>path\<close>, since \<open>filePath\<close> is the field
  of the manifest.
\<close>

definition mainFilePath :: "'i env \<Rightarrow> manifest \<Rightarrow> string option" where
  "mainFilePath E p =
     (case main p of
        JStr m \<Rightarrow> Some (path_join E (path_dirname E (filePath p)) m)
      | _ \<Rightarrow> None)"

definition filterNeverIgnoredFiles :: "'i env \<Rightarrow> manifest \<Rightarrow> string \<Rightarrow> bool" where
  "filterNeverIgnoredFiles E p =
     (let basedir = path_dirname E (filePath p)
      in (\<lambda>path.
            Some (path_join E basedir path) \<noteq> mainFilePath E p \<and>
            path \<noteq> ''package.json'' \<and>
            \<not> NEVER_IGNORED_test (path_basename E path)))"

subsection \<open>parseWhiteList\<close>

text \<open>
  The body of the loop over \<^verbatim>\<open>files\<close>: a string entry adds two patterns to the
  \<^verbatim>\<open>Ignore\<close> object, any other entry leaves it as it is.
\<close>

fun addWhiteList :: "'i env \<Rightarrow> 'i \<Rightarrow> jsval list \<Rightarrow> 'i" where
  "addWhiteList E ignore [] = ignore"
| "addWhiteList E ignore (JStr file # rest) =
     addWhiteList E
       (addPattern E (addPattern E ignore (''!'' @ file))
          (''!'' @ strip_TAIL_SLASH file @ ''/**''))
       rest"
| "addWhiteList E ignore (v # rest) = addWhiteList E ignore rest"

definition parseWhiteList :: "'i env \<Rightarrow> jsval \<Rightarrow> (string \<Rightarrow> bool) option" where
  "parseWhiteList E fs =
     (if \<not> truthy fs \<or> \<not> isArray fs then None
      else case fs of
        JArr xs \<Rightarrow>
          Some (not_fn (createFilter E (addWhiteList E (addPattern E (newIgnore E) ''*'') xs)))
      | _ \<Rightarrow> None)"

subsection \<open>parseNpmignore\<close>

definition parseNpmignore :: "'i env \<Rightarrow> string \<Rightarrow> bool \<Rightarrow> (string \<Rightarrow> bool) option" where
  "parseNpmignore E basedir filesFieldExists =
     (let npmignore = path_join E basedir ''.npmignore'';
          gitignore = path_join E basedir ''.gitignore'';
          parse = (\<lambda>path. Some (not_fn (createFilter E (addIgnoreFile E (newIgnore E) path))))
      in if \<not> exists E npmignore then
           (if filesFieldExists then None
            else if \<not> exists E gitignore then None
            else parse gitignore)
         else parse npmignore)"

section \<open>The public interface\<close>

text \<open>
  \<^verbatim>\<open>getNpmignore(startPath)\<close>. A function is truthy and \<^verbatim>\<open>null\<close> is falsy, so
  \<^verbatim>\<open>Boolean(filesIgnore)\<close> and the tests of the \<^verbatim>\<open>if\<close> chain ask whether the parser returned
  a function. A cached object is always truthy, so \<^verbatim>\<open>if (data)\<close> asks whether the cache
  had an entry.
\<close>

definition getNpmignore :: "'i env \<Rightarrow> cache \<Rightarrow> string \<Rightarrow> matcher \<times> cache" where
  "getNpmignore E c startPath =
     (case getPackageJson E startPath of
        None \<Rightarrow> (\<lparr>match = alwaysFalse\<rparr>, c)
      | Some p \<Rightarrow>
          (case cache_get c (filePath p) of
             Some data \<Rightarrow> (data, c)
           | None \<Rightarrow>
               (let filesIgnore = parseWhiteList E (files p);
                    npmignoreIgnore =
                      parseNpmignore E (path_dirname E (filePath p)) (filesIgnore \<noteq> None);
                    retv =
                      (case (filesIgnore, npmignoreIgnore) of
                         (Some f, Some n) \<Rightarrow>
                           \<lparr>match = and_fn (filterNeverIgnoredFiles E p) (or_fn f n)\<rparr>
                       | (Some f, None) \<Rightarrow> \<lparr>match = and_fn (filterNeverIgnoredFiles E p) f\<rparr>
                       | (None, Some n) \<Rightarrow> \<lparr>match = and_fn (filterNeverIgnoredFiles E p) n\<rparr>
                       | (None, None) \<Rightarrow> \<lparr>match = alwaysFalse\<rparr>)
                in (retv, cache_put c (filePath p) retv))))"

section \<open>The pattern set of the whitelist, as the specification words it\<close>

text \<open>
  The specification describes the pattern set of \<^verbatim>\<open>parseWhiteList\<close> as a list: the pattern
  \<^verbatim>\<open>*\<close> first, then for every string entry \<open>f\<close> the pair \<^verbatim>\<open>!f\<close> and
  \<^verbatim>\<open>!<f without its trailing slashes>/**\<close>, and nothing for an entry that is not a string.
  The two definitions below follow these words; the loop \<open>addWhiteList\<close> above follows the
  code.
\<close>

definition entryPatterns :: "jsval \<Rightarrow> string list" where
  "entryPatterns v =
     (case v of
        JStr f \<Rightarrow> [''!'' @ f, ''!'' @ strip_TAIL_SLASH f @ ''/**'']
      | _ \<Rightarrow> [])"

definition whiteListPatterns :: "jsval list \<Rightarrow> string list" where
  "whiteListPatterns xs = ''*'' # concat (map entryPatterns xs)"

section \<open>An environment to run the module in\<close>

text \<open>
  The theorems hold for every environment. To run the module on concrete packages, this
  section builds one: Node's POSIX \<^verbatim>\<open>path.basename\<close>, \<^verbatim>\<open>path.dirname\<close> and \<^verbatim>\<open>path.join\<close>, a
  file system given as a list of files with their lines, and a small pattern engine. The
  engine keeps the patterns in the order they were added and lets the last pattern that
  matches a path decide, as ignore files do; it knows three forms of pattern only
  (\<^verbatim>\<open>*\<close>, a literal path, and \<^verbatim>\<open>dir/**\<close>, each with an optional leading \<^verbatim>\<open>!\<close>). It stands in
  for the \<^verbatim>\<open>ignore\<close> package in the examples and is no model of that package.
\<close>

definition basename_posix :: "string \<Rightarrow> string" where
  "basename_posix p =
     rev (takeWhile (\<lambda>c. c \<noteq> CHR ''/'') (dropWhile (\<lambda>c. c = CHR ''/'') (rev p)))"

definition dirname_posix :: "string \<Rightarrow> string" where
  "dirname_posix p =
     (if p = [] then ''.''
      else
        (let hasRoot = (hd p = CHR ''/'');
             r = dropWhile (\<lambda>c. c \<noteq> CHR ''/'') (dropWhile (\<lambda>c. c = CHR ''/'') (rev (tl p)))
         in if r = [] then (if hasRoot then ''/'' else ''.'')
            else if hasRoot \<and> length r = 1 then ''//''
            else hd p # rev (tl r)))"

fun split_slash :: "string \<Rightarrow> string list" where
  "split_slash [] = [[]]"
| "split_slash (c # cs) =
     (if c = CHR ''/'' then [] # split_slash cs
      else (case split_slash cs of
              [] \<Rightarrow> [[c]]
            | w # ws \<Rightarrow> (c # w) # ws))"

fun join_slash :: "string list \<Rightarrow> string" where
  "join_slash [] = []"
| "join_slash [s] = s"
| "join_slash (s # t # ss) = s @ ''/'' @ join_slash (t # ss)"

text \<open>
  The segments of a normalised path; \<open>acc\<close> holds the segments kept so far, the last one
  first. An empty segment and \<^verbatim>\<open>.\<close> are dropped, \<^verbatim>\<open>..\<close> removes the segment before it, and
  is kept only in a relative path (\<open>aboveRoot\<close>) that has nothing left to remove.
\<close>

fun normalize_segments :: "bool \<Rightarrow> string list \<Rightarrow> string list \<Rightarrow> string list" where
  "normalize_segments aboveRoot acc [] = rev acc"
| "normalize_segments aboveRoot acc (s # ss) =
     (if s = [] \<or> s = ''.'' then normalize_segments aboveRoot acc ss
      else if s = ''..'' then
        (case acc of
           [] \<Rightarrow> normalize_segments aboveRoot (if aboveRoot then [''..''] else []) ss
         | t # ts \<Rightarrow>
             if t = ''..'' then normalize_segments aboveRoot (if aboveRoot then s # acc else acc) ss
             else normalize_segments aboveRoot ts ss)
      else normalize_segments aboveRoot (s # acc) ss)"

definition normalize_posix :: "string \<Rightarrow> string" where
  "normalize_posix p =
     (if p = [] then ''.''
      else
        (let isAbsolute = (hd p = CHR ''/'');
             trailingSeparator = (last p = CHR ''/'');
             q = join_slash (normalize_segments (\<not> isAbsolute) [] (split_slash p));
             q1 = (if q = [] \<and> \<not> isAbsolute then ''.'' else q);
             q2 = (if q1 \<noteq> [] \<and> trailingSeparator then q1 @ ''/'' else q1)
         in if isAbsolute then CHR ''/'' # q2 else q2))"

definition join_posix :: "string \<Rightarrow> string \<Rightarrow> string" where
  "join_posix a b =
     (let joined = (if a = [] then b else if b = [] then a else a @ ''/'' @ b)
      in if joined = [] then ''.'' else normalize_posix joined)"

definition starts_with :: "string \<Rightarrow> string \<Rightarrow> bool" where
  "starts_with pre s = (take (length pre) s = pre)"

definition pattern_matches :: "string \<Rightarrow> string \<Rightarrow> bool" where
  "pattern_matches pat path =
     (if pat = ''*'' then True
      else if 3 \<le> length pat \<and> drop (length pat - 3) pat = ''/**''
        then starts_with (take (length pat - 2) pat) path
      else path = pat \<or> starts_with (pat @ ''/'') path)"

definition apply_pattern :: "string \<Rightarrow> bool \<Rightarrow> string \<Rightarrow> bool" where
  "apply_pattern path ignored pat =
     (case pat of
        [] \<Rightarrow> ignored
      | c # rest \<Rightarrow>
          if c = CHR ''!'' then (if pattern_matches rest path then False else ignored)
          else (if pattern_matches pat path then True else ignored))"

definition sample_filter :: "string list \<Rightarrow> string \<Rightarrow> bool" where
  "sample_filter pats = (\<lambda>path. \<not> foldl (apply_pattern path) False pats)"

definition pattern_line :: "string \<Rightarrow> bool" where
  "pattern_line l = (case l of [] \<Rightarrow> False | c # rest \<Rightarrow> c \<noteq> CHR ''#'')"

definition read_patterns :: "(string \<times> string list) list \<Rightarrow> string \<Rightarrow> string list" where
  "read_patterns fs path =
     (case map_of fs path of None \<Rightarrow> [] | Some ls \<Rightarrow> filter pattern_line ls)"

definition sample_env :: "manifest option \<Rightarrow> (string \<times> string list) list \<Rightarrow> string list env" where
  "sample_env pkg fs =
     \<lparr>path_dirname = dirname_posix,
      path_join = join_posix,
      path_basename = basename_posix,
      exists = (\<lambda>path. map_of fs path \<noteq> None),
      getPackageJson = (\<lambda>startPath. pkg),
      newIgnore = [],
      addPattern = (\<lambda>pats pat. pats @ [pat]),
      addIgnoreFile = (\<lambda>pats path. pats @ read_patterns fs path),
      createFilter = sample_filter\<rparr>"

text \<open>A package at \<^verbatim>\<open>/pkg\<close> with the given \<^verbatim>\<open>files\<close> and \<^verbatim>\<open>main\<close> fields.\<close>

definition pkg :: "jsval \<Rightarrow> jsval \<Rightarrow> manifest" where
  "pkg fs m = \<lparr>filePath = ''/pkg/package.json'', files = fs, main = m\<rparr>"


definition env_npmignore_star :: "string list env" where
  "env_npmignore_star =
     sample_env (Some (pkg JUndefined (JStr ''index.js''))) [(''/pkg/.npmignore'', [''*''])]"

definition env_no_main :: "string list env" where
  "env_no_main = sample_env (Some (pkg JUndefined JUndefined)) [(''/pkg/.npmignore'', [''*''])]"

definition env_files_empty :: "string list env" where
  "env_files_empty = sample_env (Some (pkg (JArr []) JUndefined)) []"

definition env_both :: "string list env" where
  "env_both =
     sample_env (Some (pkg (JArr [JStr ''lib'']) JUndefined))
       [(''/pkg/.npmignore'', [''# scratch'', ''lib/tmp'']), (''/pkg/.gitignore'', [''*''])]"

definition env_gitignore :: "string list env" where
  "env_gitignore = sample_env (Some (pkg JUndefined JUndefined)) [(''/pkg/.gitignore'', [''dist''])]"

definition env_bare :: "string list env" where
  "env_bare = sample_env (Some (pkg JUndefined JUndefined)) []"

definition env_no_manifest :: "string list env" where
  "env_no_manifest = sample_env None []"

text \<open>
  The package of \<open>env_npmignore_star\<close> after \<^verbatim>\<open>main\<close> was changed to \<^verbatim>\<open>other.js\<close>.
\<close>

definition env_main_other :: "string list env" where
  "env_main_other =
     sample_env (Some (pkg JUndefined (JStr ''other.js''))) [(''/pkg/.npmignore'', [''*''])]"

section \<open>The branches of getNpmignore\<close>

lemma getNpmignore_no_manifest:
  "getPackageJson E s = None \<Longrightarrow> getNpmignore E c s = (\<lparr>match = alwaysFalse\<rparr>, c)"
  by (simp add: getNpmignore_def)

lemma getNpmignore_cached:
  "getPackageJson E s = Some p \<Longrightarrow> cache_get c (filePath p) = Some d \<Longrightarrow>
   getNpmignore E c s = (d, c)"
  by (simp add: getNpmignore_def)

lemma getNpmignore_both:
  "getPackageJson E s = Some p \<Longrightarrow> cache_get c (filePath p) = None \<Longrightarrow>
   parseWhiteList E (files p) = Some f \<Longrightarrow>
   parseNpmignore E (path_dirname E (filePath p)) True = Some n \<Longrightarrow>
   fst (getNpmignore E c s) = \<lparr>match = and_fn (filterNeverIgnoredFiles E p) (or_fn f n)\<rparr>"
  by (simp add: getNpmignore_def Let_def)

lemma getNpmignore_only_files:
  "getPackageJson E s = Some p \<Longrightarrow> cache_get c (filePath p) = None \<Longrightarrow>
   parseWhiteList E (files p) = Some f \<Longrightarrow>
   parseNpmignore E (path_dirname E (filePath p)) True = None \<Longrightarrow>
   fst (getNpmignore E c s) = \<lparr>match = and_fn (filterNeverIgnoredFiles E p) f\<rparr>"
  by (simp add: getNpmignore_def Let_def)

lemma getNpmignore_only_npmignore:
  "getPackageJson E s = Some p \<Longrightarrow> cache_get c (filePath p) = None \<Longrightarrow>
   parseWhiteList E (files p) = None \<Longrightarrow>
   parseNpmignore E (path_dirname E (filePath p)) False = Some n \<Longrightarrow>
   fst (getNpmignore E c s) = \<lparr>match = and_fn (filterNeverIgnoredFiles E p) n\<rparr>"
  by (simp add: getNpmignore_def Let_def)

lemma getNpmignore_neither:
  "getPackageJson E s = Some p \<Longrightarrow> cache_get c (filePath p) = None \<Longrightarrow>
   parseWhiteList E (files p) = None \<Longrightarrow>
   parseNpmignore E (path_dirname E (filePath p)) False = None \<Longrightarrow>
   fst (getNpmignore E c s) = \<lparr>match = alwaysFalse\<rparr>"
  by (simp add: getNpmignore_def Let_def)

lemma getNpmignore_stores:
  "getPackageJson E s = Some p \<Longrightarrow> cache_get c (filePath p) = None \<Longrightarrow>
   snd (getNpmignore E c s) = cache_put c (filePath p) (fst (getNpmignore E c s))"
  by (simp add: getNpmignore_def Let_def)

lemma fresh_match_filter:
  "getPackageJson E s = Some p \<Longrightarrow> cache_get c (filePath p) = None \<Longrightarrow>
   match (fst (getNpmignore E c s)) path \<Longrightarrow> filterNeverIgnoredFiles E p path"
  by (auto simp: getNpmignore_def Let_def and_fn_def alwaysFalse_def split: option.splits)

lemma filter_protected_name:
  "NEVER_IGNORED_test (path_basename E path) \<Longrightarrow> \<not> filterNeverIgnoredFiles E p path"
  by (simp add: filterNeverIgnoredFiles_def)

lemma filter_manifest: "\<not> filterNeverIgnoredFiles E p ''package.json''"
  by (simp add: filterNeverIgnoredFiles_def)

lemma filter_main:
  "Some (path_join E (path_dirname E (filePath p)) path) = mainFilePath E p \<Longrightarrow>
   \<not> filterNeverIgnoredFiles E p path"
  by (simp add: filterNeverIgnoredFiles_def)

lemma addWhiteList_foldl:
  "addWhiteList E ig xs = foldl (addPattern E) ig (concat (map entryPatterns xs))"
  by (induction E ig xs rule: addWhiteList.induct) (simp_all add: entryPatterns_def)

lemma parseWhiteList_array:
  "parseWhiteList E (JArr xs) =
     Some (not_fn (createFilter E (addWhiteList E (addPattern E (newIgnore E) ''*'') xs)))"
  by (simp add: parseWhiteList_def)

lemma parseWhiteList_None_iff: "(parseWhiteList E fs = None) = (\<not> isArray fs)"
  by (cases fs) (simp_all add: parseWhiteList_def)

section \<open>Facts about the path functions and the regular expressions\<close>

lemma dropWhile_rev_keep:
  "n \<noteq> [] \<Longrightarrow> last n \<noteq> c \<Longrightarrow> dropWhile (\<lambda>x. x = c) (rev n @ zs) = rev n @ zs"
  by (cases n rule: rev_cases) simp_all

lemma takeWhile_rev_stop:
  "c \<notin> set n \<Longrightarrow> takeWhile (\<lambda>x. x \<noteq> c) (rev n @ c # zs) = rev n"
proof -
  assume "c \<notin> set n"
  then have "\<And>x. x \<in> set (rev n) \<Longrightarrow> x \<noteq> c" by auto
  then have "takeWhile (\<lambda>x. x \<noteq> c) (rev n @ c # zs) = rev n @ takeWhile (\<lambda>x. x \<noteq> c) (c # zs)"
    by (rule takeWhile_append2)
  then show ?thesis by simp
qed

lemma basename_posix_nested:
  assumes "n \<noteq> []" "CHR ''/'' \<notin> set n"
  shows "basename_posix (d @ ''/'' @ n) = n"
proof -
  have l: "last n \<noteq> CHR ''/''" using assms last_in_set by metis
  have "rev (d @ ''/'' @ n) = rev n @ CHR ''/'' # rev d" by simp
  then have "dropWhile (\<lambda>c. c = CHR ''/'') (rev (d @ ''/'' @ n)) = rev n @ CHR ''/'' # rev d"
    using dropWhile_rev_keep[OF assms(1) l] by simp
  then show ?thesis
    using takeWhile_rev_stop[OF assms(2)] by (simp add: basename_posix_def)
qed

lemma NEVER_IGNORED_empty: "\<not> NEVER_IGNORED_test []"
  by (simp add: NEVER_IGNORED_test_def with_ext_def with_opt_ext_def)

lemma NEVER_IGNORED_nonempty: "NEVER_IGNORED_test n \<Longrightarrow> n \<noteq> []"
  using NEVER_IGNORED_empty by blast

lemma strip_TAIL_SLASH_spec:
  "\<exists>k. f = strip_TAIL_SLASH f @ replicate k (CHR ''/'') \<and>
       (strip_TAIL_SLASH f = [] \<or> last (strip_TAIL_SLASH f) \<noteq> CHR ''/'')"
proof -
  let ?P = "\<lambda>c. c = CHR ''/''"
  let ?t = "takeWhile ?P (rev f)"
  let ?d = "dropWhile ?P (rev f)"
  have "rev (?t @ ?d) = f" by simp
  then have f: "rev ?d @ rev ?t = f" by (simp only: rev_append)
  have "\<And>x. x \<in> set ?t \<Longrightarrow> x = CHR ''/''" by (rule set_takeWhileD[THEN conjunct2])
  then have "?t = replicate (length ?t) (CHR ''/'')"
    by (simp add: replicate_length_same)
  then have "rev ?t = replicate (length ?t) (CHR ''/'')"
    by (metis rev_replicate)
  with f[symmetric] have a: "f = strip_TAIL_SLASH f @ replicate (length ?t) (CHR ''/'')"
    by (simp add: strip_TAIL_SLASH_def)
  have b: "strip_TAIL_SLASH f = [] \<or> last (strip_TAIL_SLASH f) \<noteq> CHR ''/''"
  proof (cases ?d)
    case Nil
    then show ?thesis by (simp add: strip_TAIL_SLASH_def)
  next
    case (Cons y ys)
    then have "\<not> ?P (hd ?d)" using hd_dropWhile[of ?P "rev f"] by simp
    with Cons show ?thesis by (simp add: strip_TAIL_SLASH_def)
  qed
  from a b show ?thesis by blast
qed

lemma with_ext_iff:
  "with_ext base s = (\<exists>ext. s = base @ ''.'' @ ext \<and> CHR ''.'' \<notin> set ext)"
proof
  assume w: "with_ext base s"
  then have "take (length base + 1) s = base @ ''.''" by (simp add: with_ext_def)
  then have "s = (base @ ''.'') @ drop (length base + 1) s"
    by (metis append_take_drop_id)
  with w show "\<exists>ext. s = base @ ''.'' @ ext \<and> CHR ''.'' \<notin> set ext"
    by (auto simp: with_ext_def no_dot_def)
next
  assume "\<exists>ext. s = base @ ''.'' @ ext \<and> CHR ''.'' \<notin> set ext"
  then show "with_ext base s" by (auto simp: with_ext_def no_dot_def)
qed

section \<open>Protected names and the cache\<close>

text \<open>
  The cache is empty when the module is loaded and only \<open>getNpmignore\<close> writes to it. If
  no Matcher in the cache reports a path with a protected basename as ignorable, then
  neither does the Matcher a call returns, and the property still holds of the cache after
  the call: it holds of every Matcher the module ever returns.
\<close>

lemma getNpmignore_protects:
  assumes inv: "\<forall>k d path. cache_get c k = Some d \<and> NEVER_IGNORED_test (path_basename E path)
                  \<longrightarrow> \<not> match d path"
  shows "(\<forall>path. NEVER_IGNORED_test (path_basename E path)
            \<longrightarrow> \<not> match (fst (getNpmignore E c s)) path) \<and>
         (\<forall>k d path. cache_get (snd (getNpmignore E c s)) k = Some d \<and>
                     NEVER_IGNORED_test (path_basename E path) \<longrightarrow> \<not> match d path)"
proof (cases "getPackageJson E s")
  case None
  then show ?thesis using inv by (simp add: getNpmignore_no_manifest alwaysFalse_def)
next
  case (Some p)
  show ?thesis
  proof (cases "cache_get c (filePath p)")
    case (Some d)
    with \<open>getPackageJson E s = Some p\<close> have "getNpmignore E c s = (d, c)"
      by (rule getNpmignore_cached)
    with inv Some show ?thesis by auto
  next
    case None
    note miss = this
    have fresh: "\<forall>path. NEVER_IGNORED_test (path_basename E path)
            \<longrightarrow> \<not> match (fst (getNpmignore E c s)) path"
      using fresh_match_filter[OF \<open>getPackageJson E s = Some p\<close> miss] filter_protected_name
      by blast
    have st: "snd (getNpmignore E c s) = cache_put c (filePath p) (fst (getNpmignore E c s))"
      using \<open>getPackageJson E s = Some p\<close> miss by (rule getNpmignore_stores)
    have "\<forall>k d path. cache_get (snd (getNpmignore E c s)) k = Some d \<and>
                     NEVER_IGNORED_test (path_basename E path) \<longrightarrow> \<not> match d path"
    proof (intro allI impI)
      fix k d path
      assume a: "cache_get (snd (getNpmignore E c s)) k = Some d \<and>
                 NEVER_IGNORED_test (path_basename E path)"
      show "\<not> match d path"
      proof (cases "k = filePath p")
        case True
        with a st have "d = fst (getNpmignore E c s)"
          by (simp add: cache_get_def cache_put_def)
        with fresh a show ?thesis by blast
      next
        case False
        with a st have "cache_get c k = Some d"
          by (simp add: cache_get_def cache_put_def)
        with inv a show ?thesis by blast
      qed
    qed
    with fresh show ?thesis by blast
  qed
qed

section \<open>The cache over successive calls\<close>









section \<open>The claims\<close>

text \<open>
  Claim C1. When a manifest is found and its Matcher is computed (the cache holds no entry
  for the manifest's path), the Matcher's \<open>match\<close> is: the conjunction of the never-ignored
  filter with the disjunction of the whitelist predicate and the ignore-file predicate when
  both parsers return one; the conjunction of the filter with the whitelist predicate when
  only \<open>parseWhiteList\<close> returns one; the conjunction of the filter with the ignore-file
  predicate when only \<open>parseNpmignore\<close> returns one. Each equation holds between the
  functions and at every input path.
\<close>

theorem getNpmignore_combines:
  assumes "getPackageJson E s = Some p" and "cache_get c (filePath p) = None"
  shows
    "(\<forall>f n. parseWhiteList E (files p) = Some f \<and>
            parseNpmignore E (path_dirname E (filePath p)) (parseWhiteList E (files p) \<noteq> None) = Some n \<longrightarrow>
        match (fst (getNpmignore E c s)) = and_fn (filterNeverIgnoredFiles E p) (or_fn f n) \<and>
        (\<forall>path. match (fst (getNpmignore E c s)) path =
                  (filterNeverIgnoredFiles E p path \<and> (f path \<or> n path)))) \<and>
     (\<forall>f. parseWhiteList E (files p) = Some f \<and>
          parseNpmignore E (path_dirname E (filePath p)) (parseWhiteList E (files p) \<noteq> None) = None \<longrightarrow>
        match (fst (getNpmignore E c s)) = and_fn (filterNeverIgnoredFiles E p) f \<and>
        (\<forall>path. match (fst (getNpmignore E c s)) path =
                  (filterNeverIgnoredFiles E p path \<and> f path))) \<and>
     (\<forall>n. parseWhiteList E (files p) = None \<and>
          parseNpmignore E (path_dirname E (filePath p)) (parseWhiteList E (files p) \<noteq> None) = Some n \<longrightarrow>
        match (fst (getNpmignore E c s)) = and_fn (filterNeverIgnoredFiles E p) n \<and>
        (\<forall>path. match (fst (getNpmignore E c s)) path =
                  (filterNeverIgnoredFiles E p path \<and> n path)))"
proof (intro conjI allI impI)
  fix f n
  assume h: "parseWhiteList E (files p) = Some f \<and>
     parseNpmignore E (path_dirname E (filePath p)) (parseWhiteList E (files p) \<noteq> None) = Some n"
  then have "parseNpmignore E (path_dirname E (filePath p)) True = Some n" by auto
  with assms h have m: "fst (getNpmignore E c s) =
      \<lparr>match = and_fn (filterNeverIgnoredFiles E p) (or_fn f n)\<rparr>"
    by (simp add: getNpmignore_both)
  then show "match (fst (getNpmignore E c s)) = and_fn (filterNeverIgnoredFiles E p) (or_fn f n)"
    by simp
  fix path
  from m show "match (fst (getNpmignore E c s)) path =
      (filterNeverIgnoredFiles E p path \<and> (f path \<or> n path))"
    by (simp add: and_fn_def or_fn_def)
next
  fix f
  assume h: "parseWhiteList E (files p) = Some f \<and>
     parseNpmignore E (path_dirname E (filePath p)) (parseWhiteList E (files p) \<noteq> None) = None"
  then have "parseNpmignore E (path_dirname E (filePath p)) True = None" by auto
  with assms h have m: "fst (getNpmignore E c s) =
      \<lparr>match = and_fn (filterNeverIgnoredFiles E p) f\<rparr>"
    by (simp add: getNpmignore_only_files)
  then show "match (fst (getNpmignore E c s)) = and_fn (filterNeverIgnoredFiles E p) f"
    by simp
  fix path
  from m show "match (fst (getNpmignore E c s)) path = (filterNeverIgnoredFiles E p path \<and> f path)"
    by (simp add: and_fn_def)
next
  fix n
  assume h: "parseWhiteList E (files p) = None \<and>
     parseNpmignore E (path_dirname E (filePath p)) (parseWhiteList E (files p) \<noteq> None) = Some n"
  then have "parseNpmignore E (path_dirname E (filePath p)) False = Some n" by auto
  with assms h have m: "fst (getNpmignore E c s) =
      \<lparr>match = and_fn (filterNeverIgnoredFiles E p) n\<rparr>"
    by (simp add: getNpmignore_only_npmignore)
  then show "match (fst (getNpmignore E c s)) = and_fn (filterNeverIgnoredFiles E p) n"
    by simp
  fix path
  from m show "match (fst (getNpmignore E c s)) path = (filterNeverIgnoredFiles E p path \<and> n path)"
    by (simp add: and_fn_def)
qed

text \<open>
  A package with \<^verbatim>\<open>files: ["lib"]\<close> and an \<^verbatim>\<open>.npmignore\<close> that holds \<^verbatim>\<open>lib/tmp\<close>: both
  predicates exist, \<^verbatim>\<open>lib/tmp/x.js\<close> and \<^verbatim>\<open>test/a.js\<close> are ignorable, \<^verbatim>\<open>lib/a.js\<close> is not.
\<close>

theorem getNpmignore_combines_witness:
  "getPackageJson env_both ''/pkg/lib/a.js'' = Some (pkg (JArr [JStr ''lib'']) JUndefined) \<and>
   cache_get Map.empty (filePath (pkg (JArr [JStr ''lib'']) JUndefined)) = None \<and>
   parseWhiteList env_both (JArr [JStr ''lib'']) =
     Some (not_fn (sample_filter [''*'', ''!lib'', ''!lib/**''])) \<and>
   parseNpmignore env_both ''/pkg'' True = Some (not_fn (sample_filter [''lib/tmp''])) \<and>
   match (fst (getNpmignore env_both Map.empty ''/pkg/lib/a.js'')) =
     and_fn (filterNeverIgnoredFiles env_both (pkg (JArr [JStr ''lib'']) JUndefined))
       (or_fn (not_fn (sample_filter [''*'', ''!lib'', ''!lib/**'']))
              (not_fn (sample_filter [''lib/tmp'']))) \<and>
   match (fst (getNpmignore env_both Map.empty ''/pkg/lib/a.js'')) ''lib/tmp/x.js'' \<and>
   match (fst (getNpmignore env_both Map.empty ''/pkg/lib/a.js'')) ''test/a.js'' \<and>
   \<not> match (fst (getNpmignore env_both Map.empty ''/pkg/lib/a.js'')) ''lib/a.js''"
proof -
  let ?p = "pkg (JArr [JStr ''lib'']) JUndefined"
  have h1: "getPackageJson env_both ''/pkg/lib/a.js'' = Some ?p"
    by (simp add: env_both_def sample_env_def)
  have h2: "cache_get Map.empty (filePath ?p) = None"
    by (simp add: cache_get_def)
  have fp: "files ?p = JArr [JStr ''lib'']" "path_dirname env_both (filePath ?p) = ''/pkg''"
    by (simp_all add: pkg_def env_both_def sample_env_def dirname_posix_def)
  have h3: "parseWhiteList env_both (JArr [JStr ''lib'']) =
      Some (not_fn (sample_filter [''*'', ''!lib'', ''!lib/**'']))"
    by (simp add: parseWhiteList_def env_both_def sample_env_def strip_TAIL_SLASH_def)
  have h4: "parseNpmignore env_both ''/pkg'' True = Some (not_fn (sample_filter [''lib/tmp'']))"
    by (simp add: parseNpmignore_def env_both_def sample_env_def join_posix_def
        normalize_posix_def read_patterns_def pattern_line_def)
  have m: "match (fst (getNpmignore env_both Map.empty ''/pkg/lib/a.js'')) =
     and_fn (filterNeverIgnoredFiles env_both ?p)
       (or_fn (not_fn (sample_filter [''*'', ''!lib'', ''!lib/**'']))
              (not_fn (sample_filter [''lib/tmp''])))"
    using getNpmignore_combines[OF h1 h2] h3 h4 fp by simp
  have v1: "match (fst (getNpmignore env_both Map.empty ''/pkg/lib/a.js'')) ''lib/tmp/x.js''"
    by code_simp
  have v2: "match (fst (getNpmignore env_both Map.empty ''/pkg/lib/a.js'')) ''test/a.js''"
    by code_simp
  have v3: "\<not> match (fst (getNpmignore env_both Map.empty ''/pkg/lib/a.js'')) ''lib/a.js''"
    by code_simp
  from h1 h2 h3 h4 m v1 v2 v3 show ?thesis by blast
qed

text \<open>
  Claim C2, as the code has it. A path whose basename passes \<open>NEVER_IGNORED\<close> is never
  reported ignorable, whatever the ignore files and the \<^verbatim>\<open>files\<close> field hold: this is true
  of the Matcher of every call, given that it is true of the Matchers in the cache, and
  then it is true of the cache after the call. The names that pass are \<^verbatim>\<open>readme\<close> followed
  by a dot and an extension without a dot, and \<^verbatim>\<open>license\<close>, \<^verbatim>\<open>licence\<close>, \<^verbatim>\<open>changes\<close>,
  \<^verbatim>\<open>changelog\<close>, \<^verbatim>\<open>history\<close> alone or followed by a dot and an extension without a dot, in
  any case of the letters. So \<^verbatim>\<open>README.md\<close> and \<^verbatim>\<open>LICENSE\<close> are never ignorable (where
  \<^verbatim>\<open>path.basename\<close> leaves them as they are), and the bare name \<^verbatim>\<open>readme\<close> does not pass
  the test.
\<close>

theorem protected_names_never_ignorable:
  assumes "\<forall>k d path. cache_get c k = Some d \<and> NEVER_IGNORED_test (path_basename E path)
             \<longrightarrow> \<not> match d path"
  shows "(\<forall>path. NEVER_IGNORED_test (path_basename E path)
            \<longrightarrow> \<not> match (fst (getNpmignore E c s)) path) \<and>
         (\<forall>k d path. cache_get (snd (getNpmignore E c s)) k = Some d \<and>
                     NEVER_IGNORED_test (path_basename E path) \<longrightarrow> \<not> match d path) \<and>
         (path_basename E ''README.md'' = ''README.md''
            \<longrightarrow> \<not> match (fst (getNpmignore E c s)) ''README.md'') \<and>
         (path_basename E ''LICENSE'' = ''LICENSE''
            \<longrightarrow> \<not> match (fst (getNpmignore E c s)) ''LICENSE'') \<and>
         \<not> NEVER_IGNORED_test ''readme''"
proof -
  note g = getNpmignore_protects[OF assms, of s]
  have r: "NEVER_IGNORED_test ''README.md''" by code_simp
  have l: "NEVER_IGNORED_test ''LICENSE''" by code_simp
  have n: "\<not> NEVER_IGNORED_test ''readme''" by code_simp
  from g r have "path_basename E ''README.md'' = ''README.md''
            \<longrightarrow> \<not> match (fst (getNpmignore E c s)) ''README.md''" by metis
  moreover from g l have "path_basename E ''LICENSE'' = ''LICENSE''
            \<longrightarrow> \<not> match (fst (getNpmignore E c s)) ''LICENSE''" by metis
  ultimately show ?thesis using g n by blast
qed

text \<open>
  A package whose \<^verbatim>\<open>.npmignore\<close> holds \<^verbatim>\<open>*\<close>, resolved on the empty cache: \<^verbatim>\<open>a.js\<close> is
  ignorable, \<^verbatim>\<open>README.md\<close>, \<^verbatim>\<open>LICENSE\<close> and \<^verbatim>\<open>History.txt\<close> are not.
\<close>

theorem protected_names_never_ignorable_witness:
  "(\<forall>k. cache_get Map.empty k = None) \<and>
   match (fst (getNpmignore env_npmignore_star Map.empty ''/pkg/a.js'')) ''a.js'' \<and>
   \<not> match (fst (getNpmignore env_npmignore_star Map.empty ''/pkg/a.js'')) ''README.md'' \<and>
   \<not> match (fst (getNpmignore env_npmignore_star Map.empty ''/pkg/a.js'')) ''LICENSE'' \<and>
   \<not> match (fst (getNpmignore env_npmignore_star Map.empty ''/pkg/a.js'')) ''History.txt''"
proof -
  have e: "\<forall>k. cache_get Map.empty k = None" by (simp add: cache_get_def)
  then have inv: "\<forall>k d path. cache_get Map.empty k = Some d \<and>
      NEVER_IGNORED_test (path_basename env_npmignore_star path) \<longrightarrow> \<not> match d path"
    by simp
  note t = protected_names_never_ignorable[OF inv, of "''/pkg/a.js''"]
  have b1: "path_basename env_npmignore_star ''README.md'' = ''README.md''" by code_simp
  have b2: "path_basename env_npmignore_star ''LICENSE'' = ''LICENSE''" by code_simp
  have b3: "NEVER_IGNORED_test (path_basename env_npmignore_star ''History.txt'')" by code_simp
  have a: "match (fst (getNpmignore env_npmignore_star Map.empty ''/pkg/a.js'')) ''a.js''"
    by code_simp
  from t b1 have r1: "\<not> match (fst (getNpmignore env_npmignore_star Map.empty ''/pkg/a.js'')) ''README.md''"
    by blast
  from t b2 have r2: "\<not> match (fst (getNpmignore env_npmignore_star Map.empty ''/pkg/a.js'')) ''LICENSE''"
    by blast
  from t b3 have r3: "\<not> match (fst (getNpmignore env_npmignore_star Map.empty ''/pkg/a.js'')) ''History.txt''"
    by blast
  from e a r1 r2 r3 show ?thesis by blast
qed

text \<open>
  Claim C2 as the specification states it fails: in the same package the file \<^verbatim>\<open>readme\<close>
  is reported ignorable, since \<open>NEVER_IGNORED\<close> asks for a dot after \<^verbatim>\<open>readme\<close>.
\<close>

theorem bare_readme_counterexample:
  "match (fst (getNpmignore env_npmignore_star Map.empty ''/pkg/a.js'')) ''readme''"
  by code_simp

text \<open>
  Claim C3, as the code has it. \<open>parseWhiteList\<close> returns \<^verbatim>\<open>null\<close> exactly when the
  \<^verbatim>\<open>files\<close> field is not an array (an absent field, \<^verbatim>\<open>null\<close>, a boolean, a number, a
  string, an object). When the field is not an array and the Matcher is computed, no
  whitelist predicate takes part in it: \<open>match\<close> is the conjunction of the never-ignored
  filter with the ignore-file predicate, or \<open>alwaysFalse\<close> when there is no ignore file.
  Every array gives a predicate, true at a path exactly when the filter compiled from the
  patterns of the array is false there; for an array without a string entry, the empty
  one too, these patterns are \<^verbatim>\<open>*\<close> alone. When the field is an array and the Matcher is
  computed, this predicate takes part in it: \<open>match\<close> is true at a path exactly when the
  never-ignored filter is and the whitelist predicate or the ignore-file predicate (if
  there is one) is.
\<close>

theorem parseWhiteList_null_iff_not_array:
  "(parseWhiteList E fs = None) = (\<not> isArray fs) \<and>
   (\<forall>xs. parseWhiteList E (JArr xs) =
      Some (not_fn (createFilter E (addWhiteList E (addPattern E (newIgnore E) ''*'') xs)))) \<and>
   (\<forall>p. getPackageJson E s = Some p \<and> cache_get c (filePath p) = None \<and> \<not> isArray (files p)
      \<longrightarrow> match (fst (getNpmignore E c s)) =
           (case parseNpmignore E (path_dirname E (filePath p)) False of
              None \<Rightarrow> alwaysFalse
            | Some n \<Rightarrow> and_fn (filterNeverIgnoredFiles E p) n)) \<and>
   (\<forall>p path. getPackageJson E s = Some p \<and> cache_get c (filePath p) = None \<and>
        \<not> isArray (files p)
      \<longrightarrow> match (fst (getNpmignore E c s)) path =
           (case parseNpmignore E (path_dirname E (filePath p)) False of
              None \<Rightarrow> False
            | Some n \<Rightarrow> filterNeverIgnoredFiles E p path \<and> n path)) \<and>
   (\<forall>xs. \<exists>f. parseWhiteList E (JArr xs) = Some f \<and>
      (\<forall>path. f path =
         (\<not> createFilter E (addWhiteList E (addPattern E (newIgnore E) ''*'') xs) path))) \<and>
   (\<forall>xs. (\<forall>x. x \<in> set xs \<longrightarrow> \<not> isString x) \<longrightarrow>
      (\<exists>f. parseWhiteList E (JArr xs) = Some f \<and>
         (\<forall>path. f path = (\<not> createFilter E (addPattern E (newIgnore E) ''*'') path)))) \<and>
   (\<forall>p xs path. getPackageJson E s = Some p \<and> cache_get c (filePath p) = None \<and>
        files p = JArr xs
      \<longrightarrow> match (fst (getNpmignore E c s)) path =
           (filterNeverIgnoredFiles E p path \<and>
            (\<not> createFilter E (addWhiteList E (addPattern E (newIgnore E) ''*'') xs) path \<or>
             (case parseNpmignore E (path_dirname E (filePath p)) True of
                None \<Rightarrow> False
              | Some n \<Rightarrow> n path))))"
proof -
  have a: "(parseWhiteList E fs = None) = (\<not> isArray fs)"
    by (cases fs) (simp_all add: parseWhiteList_def)
  have b: "\<forall>xs. parseWhiteList E (JArr xs) =
      Some (not_fn (createFilter E (addWhiteList E (addPattern E (newIgnore E) ''*'') xs)))"
    by (simp add: parseWhiteList_def)
  have c: "\<forall>p. getPackageJson E s = Some p \<and> cache_get c (filePath p) = None \<and> \<not> isArray (files p)
      \<longrightarrow> match (fst (getNpmignore E c s)) =
           (case parseNpmignore E (path_dirname E (filePath p)) False of
              None \<Rightarrow> alwaysFalse
            | Some n \<Rightarrow> and_fn (filterNeverIgnoredFiles E p) n)"
  proof (intro allI impI)
    fix p
    assume h: "getPackageJson E s = Some p \<and> cache_get c (filePath p) = None \<and> \<not> isArray (files p)"
    then have w: "parseWhiteList E (files p) = None"
      by (cases "files p") (simp_all add: parseWhiteList_def)
    show "match (fst (getNpmignore E c s)) =
           (case parseNpmignore E (path_dirname E (filePath p)) False of
              None \<Rightarrow> alwaysFalse
            | Some n \<Rightarrow> and_fn (filterNeverIgnoredFiles E p) n)"
    proof (cases "parseNpmignore E (path_dirname E (filePath p)) False")
      case None
      with h w show ?thesis by (simp add: getNpmignore_def Let_def)
    next
      case (Some n)
      with h w show ?thesis by (simp add: getNpmignore_def Let_def)
    qed
  qed
  have c': "\<forall>p path. getPackageJson E s = Some p \<and> cache_get c (filePath p) = None \<and>
        \<not> isArray (files p)
      \<longrightarrow> match (fst (getNpmignore E c s)) path =
           (case parseNpmignore E (path_dirname E (filePath p)) False of
              None \<Rightarrow> False
            | Some n \<Rightarrow> filterNeverIgnoredFiles E p path \<and> n path)"
  proof (intro allI impI)
    fix p path
    assume h: "getPackageJson E s = Some p \<and> cache_get c (filePath p) = None \<and> \<not> isArray (files p)"
    with c have "match (fst (getNpmignore E c s)) =
           (case parseNpmignore E (path_dirname E (filePath p)) False of
              None \<Rightarrow> alwaysFalse
            | Some n \<Rightarrow> and_fn (filterNeverIgnoredFiles E p) n)" by blast
    then show "match (fst (getNpmignore E c s)) path =
           (case parseNpmignore E (path_dirname E (filePath p)) False of
              None \<Rightarrow> False
            | Some n \<Rightarrow> filterNeverIgnoredFiles E p path \<and> n path)"
      by (simp add: alwaysFalse_def and_fn_def split: option.splits)
  qed
  have d: "\<forall>xs. \<exists>f. parseWhiteList E (JArr xs) = Some f \<and>
      (\<forall>path. f path =
         (\<not> createFilter E (addWhiteList E (addPattern E (newIgnore E) ''*'') xs) path))"
    by (simp add: parseWhiteList_def not_fn_def)
  have ns: "\<And>xs ig. (\<forall>x. x \<in> set xs \<longrightarrow> \<not> isString x) \<Longrightarrow> addWhiteList E ig xs = ig"
  proof -
    fix xs :: "jsval list" and ig
    show "(\<forall>x. x \<in> set xs \<longrightarrow> \<not> isString x) \<Longrightarrow> addWhiteList E ig xs = ig"
    proof (induction xs arbitrary: ig)
      case Nil
      show ?case by simp
    next
      case (Cons x xs)
      then have nx: "\<not> isString x" and rest: "\<forall>y. y \<in> set xs \<longrightarrow> \<not> isString y"
        by simp_all
      from nx have "addWhiteList E ig (x # xs) = addWhiteList E ig xs"
        by (cases x) simp_all
      with Cons.IH[OF rest] show ?case by simp
    qed
  qed
  have e: "\<forall>xs. (\<forall>x. x \<in> set xs \<longrightarrow> \<not> isString x) \<longrightarrow>
      (\<exists>f. parseWhiteList E (JArr xs) = Some f \<and>
         (\<forall>path. f path = (\<not> createFilter E (addPattern E (newIgnore E) ''*'') path)))"
  proof (intro allI impI)
    fix xs :: "jsval list"
    assume "\<forall>x. x \<in> set xs \<longrightarrow> \<not> isString x"
    then have "addWhiteList E (addPattern E (newIgnore E) ''*'') xs = addPattern E (newIgnore E) ''*''"
      by (rule ns)
    then show "\<exists>f. parseWhiteList E (JArr xs) = Some f \<and>
         (\<forall>path. f path = (\<not> createFilter E (addPattern E (newIgnore E) ''*'') path))"
      by (simp add: parseWhiteList_def not_fn_def)
  qed
  have f: "\<forall>p xs path. getPackageJson E s = Some p \<and> cache_get c (filePath p) = None \<and>
        files p = JArr xs
      \<longrightarrow> match (fst (getNpmignore E c s)) path =
           (filterNeverIgnoredFiles E p path \<and>
            (\<not> createFilter E (addWhiteList E (addPattern E (newIgnore E) ''*'') xs) path \<or>
             (case parseNpmignore E (path_dirname E (filePath p)) True of
                None \<Rightarrow> False
              | Some n \<Rightarrow> n path)))"
  proof (intro allI impI)
    fix p xs path
    assume h: "getPackageJson E s = Some p \<and> cache_get c (filePath p) = None \<and>
        files p = JArr xs"
    let ?w = "not_fn (createFilter E (addWhiteList E (addPattern E (newIgnore E) ''*'') xs))"
    from h have w: "parseWhiteList E (files p) = Some ?w" by (simp add: parseWhiteList_def)
    show "match (fst (getNpmignore E c s)) path =
           (filterNeverIgnoredFiles E p path \<and>
            (\<not> createFilter E (addWhiteList E (addPattern E (newIgnore E) ''*'') xs) path \<or>
             (case parseNpmignore E (path_dirname E (filePath p)) True of
                None \<Rightarrow> False
              | Some n \<Rightarrow> n path)))"
    proof (cases "parseNpmignore E (path_dirname E (filePath p)) True")
      case None
      with h w have "fst (getNpmignore E c s) = \<lparr>match = and_fn (filterNeverIgnoredFiles E p) ?w\<rparr>"
        by (simp add: getNpmignore_def Let_def)
      with None show ?thesis by (simp add: and_fn_def not_fn_def)
    next
      case (Some n)
      with h w have "fst (getNpmignore E c s) =
          \<lparr>match = and_fn (filterNeverIgnoredFiles E p) (or_fn ?w n)\<rparr>"
        by (simp add: getNpmignore_def Let_def)
      with Some show ?thesis by (simp add: and_fn_def or_fn_def not_fn_def)
    qed
  qed
  from a b c c' d e f show ?thesis by (intro conjI) assumption+
qed

text \<open>
  A package with no \<^verbatim>\<open>files\<close> field and a \<^verbatim>\<open>.gitignore\<close> that holds \<^verbatim>\<open>dist\<close>; the value
  \<^verbatim>\<open>"lib"\<close>, a string where an array is expected; and a package with \<^verbatim>\<open>files: []\<close> and no
  ignore file, where \<open>match\<close> is the never-ignored filter together with the negated filter
  of \<^verbatim>\<open>*\<close>.
\<close>

theorem parseWhiteList_null_iff_not_array_witness:
  "getPackageJson env_gitignore ''/pkg/a.js'' = Some (pkg JUndefined JUndefined) \<and>
   cache_get Map.empty (filePath (pkg JUndefined JUndefined)) = None \<and>
   \<not> isArray (files (pkg JUndefined JUndefined)) \<and>
   parseWhiteList env_gitignore (files (pkg JUndefined JUndefined)) = None \<and>
   parseWhiteList env_gitignore (JStr ''lib'') = None \<and>
   match (fst (getNpmignore env_gitignore Map.empty ''/pkg/a.js'')) =
     and_fn (filterNeverIgnoredFiles env_gitignore (pkg JUndefined JUndefined))
            (not_fn (sample_filter [''dist''])) \<and>
   match (fst (getNpmignore env_gitignore Map.empty ''/pkg/a.js'')) ''dist/a.js'' \<and>
   \<not> match (fst (getNpmignore env_gitignore Map.empty ''/pkg/a.js'')) ''lib/a.js'' \<and>
   getPackageJson env_files_empty ''/pkg/a.js'' = Some (pkg (JArr []) JUndefined) \<and>
   files (pkg (JArr []) JUndefined) = JArr [] \<and>
   (\<forall>path. match (fst (getNpmignore env_files_empty Map.empty ''/pkg/a.js'')) path =
      (filterNeverIgnoredFiles env_files_empty (pkg (JArr []) JUndefined) path \<and>
       \<not> sample_filter [''*''] path))"
proof -
  let ?p = "pkg JUndefined JUndefined"
  let ?q = "pkg (JArr []) JUndefined"
  have h1: "getPackageJson env_gitignore ''/pkg/a.js'' = Some ?p"
    by (simp add: env_gitignore_def sample_env_def)
  have h2: "cache_get Map.empty (filePath ?p) = None" by (simp add: cache_get_def)
  have h3: "\<not> isArray (files ?p)" by (simp add: pkg_def)
  have h4: "\<not> isArray (JStr ''lib'')" by simp
  note t = parseWhiteList_null_iff_not_array[of env_gitignore _ "''/pkg/a.js''" Map.empty]
  from t[of "files ?p", THEN conjunct1] h3
  have w1: "parseWhiteList env_gitignore (files ?p) = None" by simp
  from t[of "JStr ''lib''", THEN conjunct1] h4
  have w2: "parseWhiteList env_gitignore (JStr ''lib'') = None" by simp
  have n: "parseNpmignore env_gitignore (path_dirname env_gitignore (filePath ?p)) False =
      Some (not_fn (sample_filter [''dist'']))"
    by (simp add: parseNpmignore_def env_gitignore_def sample_env_def pkg_def dirname_posix_def
        join_posix_def normalize_posix_def read_patterns_def pattern_line_def)
  note t3 = t[of "files ?p", THEN conjunct2, THEN conjunct2, THEN conjunct1, rule_format,
      OF conjI[OF h1 conjI[OF h2 h3]]]
  have "match (fst (getNpmignore env_gitignore Map.empty ''/pkg/a.js'')) =
      (case parseNpmignore env_gitignore (path_dirname env_gitignore (filePath ?p)) False of
              None \<Rightarrow> alwaysFalse
            | Some n \<Rightarrow> and_fn (filterNeverIgnoredFiles env_gitignore ?p) n)"
    by (rule t3)
  with n have m: "match (fst (getNpmignore env_gitignore Map.empty ''/pkg/a.js'')) =
     and_fn (filterNeverIgnoredFiles env_gitignore ?p) (not_fn (sample_filter [''dist'']))"
    by simp
  have v1: "match (fst (getNpmignore env_gitignore Map.empty ''/pkg/a.js'')) ''dist/a.js''"
    by code_simp
  have v2: "\<not> match (fst (getNpmignore env_gitignore Map.empty ''/pkg/a.js'')) ''lib/a.js''"
    by code_simp
  have q1: "getPackageJson env_files_empty ''/pkg/a.js'' = Some ?q"
    by (simp add: env_files_empty_def sample_env_def)
  have q2: "cache_get Map.empty (filePath ?q) = None" by (simp add: cache_get_def)
  have q3: "files ?q = JArr []" by (simp add: pkg_def)
  have q4: "parseNpmignore env_files_empty (path_dirname env_files_empty (filePath ?q)) True = None"
    by (simp add: parseNpmignore_def env_files_empty_def sample_env_def)
  have q5: "createFilter env_files_empty
              (addWhiteList env_files_empty
                 (addPattern env_files_empty (newIgnore env_files_empty) ''*'') []) =
            sample_filter [''*'']"
    by (simp add: env_files_empty_def sample_env_def)
  note u = parseWhiteList_null_iff_not_array[of env_files_empty JNull "''/pkg/a.js''" Map.empty]
  note u7 = u[THEN conjunct2, THEN conjunct2, THEN conjunct2, THEN conjunct2,
      THEN conjunct2, THEN conjunct2, rule_format, OF conjI[OF q1 conjI[OF q2 q3]]]
  have "\<forall>path. match (fst (getNpmignore env_files_empty Map.empty ''/pkg/a.js'')) path =
           (filterNeverIgnoredFiles env_files_empty ?q path \<and>
            (\<not> createFilter env_files_empty
                  (addWhiteList env_files_empty
                     (addPattern env_files_empty (newIgnore env_files_empty) ''*'') []) path \<or>
             (case parseNpmignore env_files_empty (path_dirname env_files_empty (filePath ?q)) True of
                None \<Rightarrow> False
              | Some n \<Rightarrow> n path)))"
    using u7 by (intro allI)
  with q4 q5 have r: "\<forall>path. match (fst (getNpmignore env_files_empty Map.empty ''/pkg/a.js'')) path =
      (filterNeverIgnoredFiles env_files_empty ?q path \<and> \<not> sample_filter [''*''] path)"
    by simp
  from h1 h2 h3 w1 w2 m v1 v2 q1 q3 r show ?thesis by (intro conjI) assumption+
qed

text \<open>
  Claim C3 as the specification states it fails: for \<^verbatim>\<open>files: []\<close>, and for an array of
  entries that are not strings, \<open>parseWhiteList\<close> returns a predicate, the one compiled
  from the pattern \<^verbatim>\<open>*\<close> alone. It takes part in the Matcher: in a package with
  \<^verbatim>\<open>files: []\<close> and no ignore file, \<^verbatim>\<open>a.js\<close> is ignorable.
\<close>

theorem empty_files_array_counterexample:
  "parseWhiteList env_files_empty (JArr []) \<noteq> None \<and>
   parseWhiteList env_files_empty (JArr [JNum 1, JNull]) \<noteq> None \<and>
   parseWhiteList env_files_empty (files (pkg (JArr []) JUndefined)) =
     Some (not_fn (sample_filter [''*''])) \<and>
   match (fst (getNpmignore env_files_empty Map.empty ''/pkg/a.js'')) ''a.js''"
proof -
  have a: "parseWhiteList env_files_empty (JArr []) \<noteq> None"
    by (simp add: parseWhiteList_def)
  have b: "parseWhiteList env_files_empty (JArr [JNum 1, JNull]) \<noteq> None"
    by (simp add: parseWhiteList_def)
  have c: "parseWhiteList env_files_empty (files (pkg (JArr []) JUndefined)) =
     Some (not_fn (sample_filter [''*'']))"
    by (simp add: parseWhiteList_def pkg_def env_files_empty_def sample_env_def)
  have d: "match (fst (getNpmignore env_files_empty Map.empty ''/pkg/a.js'')) ''a.js''"
    by code_simp
  from a b c d show ?thesis by blast
qed

text \<open>
  Claim C4. \<open>parseNpmignore\<close> asks for \<^verbatim>\<open>.npmignore\<close> in the base directory first and, when
  it exists, returns the negated filter of that file, whether or not a \<^verbatim>\<open>.gitignore\<close>
  exists. When \<^verbatim>\<open>.npmignore\<close> does not exist and \<open>filesFieldExists\<close> is true it returns
  \<^verbatim>\<open>null\<close>, whatever there is at \<^verbatim>\<open>.gitignore\<close>. When \<^verbatim>\<open>.npmignore\<close> does not exist and
  \<open>filesFieldExists\<close> is false it returns the negated filter of \<^verbatim>\<open>.gitignore\<close> if that file
  exists, and \<^verbatim>\<open>null\<close> if it does not.
\<close>

theorem parseNpmignore_precedence:
  "(exists E (path_join E basedir ''.npmignore'') \<longrightarrow>
      parseNpmignore E basedir filesFieldExists =
        Some (not_fn (createFilter E
          (addIgnoreFile E (newIgnore E) (path_join E basedir ''.npmignore''))))) \<and>
   (\<not> exists E (path_join E basedir ''.npmignore'') \<and> filesFieldExists \<longrightarrow>
      parseNpmignore E basedir filesFieldExists = None) \<and>
   (\<not> exists E (path_join E basedir ''.npmignore'') \<and> \<not> filesFieldExists \<and>
    exists E (path_join E basedir ''.gitignore'') \<longrightarrow>
      parseNpmignore E basedir filesFieldExists =
        Some (not_fn (createFilter E
          (addIgnoreFile E (newIgnore E) (path_join E basedir ''.gitignore''))))) \<and>
   (\<not> exists E (path_join E basedir ''.npmignore'') \<and> \<not> filesFieldExists \<and>
    \<not> exists E (path_join E basedir ''.gitignore'') \<longrightarrow>
      parseNpmignore E basedir filesFieldExists = None)"
  by (simp add: parseNpmignore_def Let_def)

text \<open>
  The four cases, on a package with both ignore files, one with a \<^verbatim>\<open>.gitignore\<close> only, and
  one with neither.
\<close>

theorem parseNpmignore_precedence_witness:
  "exists env_both (path_join env_both ''/pkg'' ''.npmignore'') \<and>
   exists env_both (path_join env_both ''/pkg'' ''.gitignore'') \<and>
   parseNpmignore env_both ''/pkg'' False = Some (not_fn (sample_filter [''lib/tmp''])) \<and>
   \<not> exists env_gitignore (path_join env_gitignore ''/pkg'' ''.npmignore'') \<and>
   exists env_gitignore (path_join env_gitignore ''/pkg'' ''.gitignore'') \<and>
   parseNpmignore env_gitignore ''/pkg'' True = None \<and>
   parseNpmignore env_gitignore ''/pkg'' False = Some (not_fn (sample_filter [''dist''])) \<and>
   \<not> exists env_bare (path_join env_bare ''/pkg'' ''.npmignore'') \<and>
   \<not> exists env_bare (path_join env_bare ''/pkg'' ''.gitignore'') \<and>
   parseNpmignore env_bare ''/pkg'' False = None"
proof -
  have j: "join_posix ''/pkg'' ''.npmignore'' = ''/pkg/.npmignore''"
          "join_posix ''/pkg'' ''.gitignore'' = ''/pkg/.gitignore''"
    by (simp_all add: join_posix_def normalize_posix_def)
  have b1: "exists env_both (path_join env_both ''/pkg'' ''.npmignore'')"
    using j by (simp add: env_both_def sample_env_def)
  have b2: "exists env_both (path_join env_both ''/pkg'' ''.gitignore'')"
    using j by (simp add: env_both_def sample_env_def)
  have b3: "createFilter env_both (addIgnoreFile env_both (newIgnore env_both)
              (path_join env_both ''/pkg'' ''.npmignore'')) = sample_filter [''lib/tmp'']"
    using j by (simp add: env_both_def sample_env_def read_patterns_def pattern_line_def)
  have g1: "\<not> exists env_gitignore (path_join env_gitignore ''/pkg'' ''.npmignore'')"
    using j by (simp add: env_gitignore_def sample_env_def)
  have g2: "exists env_gitignore (path_join env_gitignore ''/pkg'' ''.gitignore'')"
    using j by (simp add: env_gitignore_def sample_env_def)
  have g3: "createFilter env_gitignore (addIgnoreFile env_gitignore (newIgnore env_gitignore)
              (path_join env_gitignore ''/pkg'' ''.gitignore'')) = sample_filter [''dist'']"
    using j by (simp add: env_gitignore_def sample_env_def read_patterns_def pattern_line_def)
  have n1: "\<not> exists env_bare (path_join env_bare ''/pkg'' ''.npmignore'')"
    by (simp add: env_bare_def sample_env_def)
  have n2: "\<not> exists env_bare (path_join env_bare ''/pkg'' ''.gitignore'')"
    by (simp add: env_bare_def sample_env_def)
  note t = parseNpmignore_precedence
  from t[of env_both "''/pkg''" False] b1 b3
  have r1: "parseNpmignore env_both ''/pkg'' False = Some (not_fn (sample_filter [''lib/tmp'']))"
    by simp
  from t[of env_gitignore "''/pkg''" True] g1
  have r2: "parseNpmignore env_gitignore ''/pkg'' True = None" by simp
  from t[of env_gitignore "''/pkg''" False] g1 g2 g3
  have r3: "parseNpmignore env_gitignore ''/pkg'' False = Some (not_fn (sample_filter [''dist'']))"
    by simp
  from t[of env_bare "''/pkg''" False] n1 n2
  have r4: "parseNpmignore env_bare ''/pkg'' False = None" by simp
  from b1 b2 r1 g1 g2 r2 r3 n1 n2 r4 show ?thesis by blast
qed

text \<open>
  Claim C5. For an array \<open>xs\<close> in the \<^verbatim>\<open>files\<close> field, \<open>parseWhiteList\<close> returns the negation
  of the filter compiled from a new \<^verbatim>\<open>Ignore\<close> object to which the patterns of
  \<open>whiteListPatterns xs\<close> were added one by one, in this order: \<^verbatim>\<open>*\<close> first, then for each
  string entry \<open>f\<close> the patterns \<^verbatim>\<open>!f\<close> and \<^verbatim>\<open>!<f without trailing slashes>/**\<close>, and nothing
  for the other entries. The negation is logical: the predicate returned is true at a path
  exactly when the compiled filter is false there. Stripping the trailing slashes removes
  a run of slashes at the end of \<open>f\<close> and leaves a string that does not end in a slash.
\<close>

theorem parseWhiteList_pattern_set:
  "parseWhiteList E (JArr xs) =
     Some (not_fn (createFilter E
       (foldl (addPattern E) (newIgnore E) (whiteListPatterns xs)))) \<and>
   (\<exists>f. parseWhiteList E (JArr xs) = Some f \<and>
      (\<forall>path. f path =
         (\<not> createFilter E (foldl (addPattern E) (newIgnore E) (whiteListPatterns xs)) path))) \<and>
   (\<forall>f. \<exists>k. f = strip_TAIL_SLASH f @ replicate k (CHR ''/'') \<and>
        (strip_TAIL_SLASH f = [] \<or> last (strip_TAIL_SLASH f) \<noteq> CHR ''/''))"
proof -
  have loop: "\<And>ig. addWhiteList E ig xs = foldl (addPattern E) ig (concat (map entryPatterns xs))"
  proof (induction xs)
    case Nil
    show ?case by simp
  next
    case (Cons x xs)
    show ?case
    proof (cases x)
      case (JStr str)
      then show ?thesis by (simp add: Cons.IH entryPatterns_def)
    qed (simp_all add: Cons.IH entryPatterns_def)
  qed
  have "addWhiteList E (addPattern E (newIgnore E) ''*'') xs =
        foldl (addPattern E) (newIgnore E) (whiteListPatterns xs)"
    by (simp add: loop whiteListPatterns_def)
  then have a: "parseWhiteList E (JArr xs) =
     Some (not_fn (createFilter E
       (foldl (addPattern E) (newIgnore E) (whiteListPatterns xs))))"
    by (simp add: parseWhiteList_def)
  then have b: "\<exists>f. parseWhiteList E (JArr xs) = Some f \<and>
      (\<forall>path. f path =
         (\<not> createFilter E (foldl (addPattern E) (newIgnore E) (whiteListPatterns xs)) path))"
    by (simp add: not_fn_def)
  have c: "\<forall>f. \<exists>k. f = strip_TAIL_SLASH f @ replicate k (CHR ''/'') \<and>
        (strip_TAIL_SLASH f = [] \<or> last (strip_TAIL_SLASH f) \<noteq> CHR ''/'')"
    using strip_TAIL_SLASH_spec by (intro allI)
  from a b c show ?thesis by (intro conjI) assumption+
qed

text \<open>
  The array \<^verbatim>\<open>["lib//", 3, "a.js"]\<close>: five patterns, none for the number. The predicate
  returned is true at \<^verbatim>\<open>test/a.js\<close> and false at \<^verbatim>\<open>lib/a.js\<close> and \<^verbatim>\<open>a.js\<close>.
\<close>

theorem parseWhiteList_pattern_set_witness:
  "whiteListPatterns [JStr ''lib//'', JNum 3, JStr ''a.js''] =
     [''*'', ''!lib//'', ''!lib/**'', ''!a.js'', ''!a.js/**''] \<and>
   parseWhiteList env_bare (JArr [JStr ''lib//'', JNum 3, JStr ''a.js'']) =
     Some (not_fn (sample_filter [''*'', ''!lib//'', ''!lib/**'', ''!a.js'', ''!a.js/**''])) \<and>
   (\<exists>f. parseWhiteList env_bare (JArr [JStr ''lib//'', JNum 3, JStr ''a.js'']) = Some f \<and>
      (\<forall>path. f path =
         (\<not> sample_filter [''*'', ''!lib//'', ''!lib/**'', ''!a.js'', ''!a.js/**''] path)) \<and>
      f ''test/a.js'' \<and> \<not> f ''lib/a.js'' \<and> \<not> f ''a.js'')"
proof -
  let ?ps = "[''*'', ''!lib//'', ''!lib/**'', ''!a.js'', ''!a.js/**'']"
  have w: "whiteListPatterns [JStr ''lib//'', JNum 3, JStr ''a.js''] = ?ps"
    by (simp add: whiteListPatterns_def entryPatterns_def strip_TAIL_SLASH_def)
  have e: "foldl (addPattern env_bare) (newIgnore env_bare) ?ps = ?ps"
    by (simp add: env_bare_def sample_env_def)
  have c: "createFilter env_bare = sample_filter"
    by (simp add: env_bare_def sample_env_def)
  note t = parseWhiteList_pattern_set[of env_bare "[JStr ''lib//'', JNum 3, JStr ''a.js'']"]
  from t[THEN conjunct1]
  have "parseWhiteList env_bare (JArr [JStr ''lib//'', JNum 3, JStr ''a.js'']) =
     Some (not_fn (createFilter env_bare (foldl (addPattern env_bare) (newIgnore env_bare)
        (whiteListPatterns [JStr ''lib//'', JNum 3, JStr ''a.js'']))))" .
  with w e c have p: "parseWhiteList env_bare (JArr [JStr ''lib//'', JNum 3, JStr ''a.js'']) =
     Some (not_fn (sample_filter ?ps))"
    by simp
  from t[THEN conjunct2, THEN conjunct1] obtain f where f1: "parseWhiteList env_bare (JArr [JStr ''lib//'', JNum 3, JStr ''a.js'']) = Some f"
    and f2: "\<forall>path. f path =
         (\<not> createFilter env_bare (foldl (addPattern env_bare) (newIgnore env_bare)
        (whiteListPatterns [JStr ''lib//'', JNum 3, JStr ''a.js''])) path)"
    by blast
  from f2 w e c have f3: "\<forall>path. f path = (\<not> sample_filter ?ps path)" by simp
  have v1: "\<not> sample_filter ?ps ''test/a.js''" by code_simp
  have v2: "sample_filter ?ps ''lib/a.js''" by code_simp
  have v3: "sample_filter ?ps ''a.js''" by code_simp
  from f3 v1 v2 v3 have f4: "f ''test/a.js'' \<and> \<not> f ''lib/a.js'' \<and> \<not> f ''a.js''" by simp
  from f1 f3 f4 have "\<exists>f. parseWhiteList env_bare (JArr [JStr ''lib//'', JNum 3, JStr ''a.js'']) = Some f \<and>
      (\<forall>path. f path = (\<not> sample_filter ?ps path)) \<and>
      f ''test/a.js'' \<and> \<not> f ''lib/a.js'' \<and> \<not> f ''a.js''" by blast
  with w p show ?thesis by (intro conjI) assumption+
qed

text \<open>
  Claim C6, as the code has it. The path \<^verbatim>\<open>package.json\<close> is never reported ignorable by
  the Matcher of any call, cached or computed: this is true of the Matcher a call returns,
  given that it is true of the Matchers in the cache, and then it is true of the cache
  after the call. The entry file that a Matcher protects is the one of the manifest it
  was computed from. So when the Matcher is computed at this call, or comes from the cache
  and is the one computed from the files as they are, no path that \<^verbatim>\<open>path.join\<close> with the
  base directory sends to the joined path of \<^verbatim>\<open>main\<close> is reported ignorable; this covers
  the value of \<^verbatim>\<open>main\<close> itself. A Matcher found in the cache is returned as it was stored,
  whatever the manifest holds now.
\<close>

theorem manifest_and_main_protected:
  "((\<forall>k d. cache_get c k = Some d \<longrightarrow> \<not> match d ''package.json'') \<longrightarrow>
      \<not> match (fst (getNpmignore E c s)) ''package.json'' \<and>
      (\<forall>k d. cache_get (snd (getNpmignore E c s)) k = Some d \<longrightarrow> \<not> match d ''package.json'')) \<and>
   (\<forall>p. getPackageJson E s = Some p \<and>
        (cache_get c (filePath p) = None \<or>
         cache_get c (filePath p) = Some (fst (getNpmignore E Map.empty s))) \<longrightarrow>
      (\<forall>path. Some (path_join E (path_dirname E (filePath p)) path) = mainFilePath E p
         \<longrightarrow> \<not> match (fst (getNpmignore E c s)) path) \<and>
      (\<forall>m. main p = JStr m \<longrightarrow>
         mainFilePath E p = Some (path_join E (path_dirname E (filePath p)) m) \<and>
         \<not> match (fst (getNpmignore E c s)) m)) \<and>
   (\<forall>p d. getPackageJson E s = Some p \<and> cache_get c (filePath p) = Some d \<longrightarrow>
      getNpmignore E c s = (d, c))"
proof -
  have a: "(\<forall>k d. cache_get c k = Some d \<longrightarrow> \<not> match d ''package.json'') \<longrightarrow>
      \<not> match (fst (getNpmignore E c s)) ''package.json'' \<and>
      (\<forall>k d. cache_get (snd (getNpmignore E c s)) k = Some d \<longrightarrow> \<not> match d ''package.json'')"
  proof
    assume inv: "\<forall>k d. cache_get c k = Some d \<longrightarrow> \<not> match d ''package.json''"
    have f: "\<And>p. \<not> filterNeverIgnoredFiles E p ''package.json''"
      by (simp add: filterNeverIgnoredFiles_def)
    have r: "\<not> match (fst (getNpmignore E c s)) ''package.json''"
      using inv f
      by (auto simp: getNpmignore_def Let_def and_fn_def alwaysFalse_def split: option.splits)
    have "\<forall>k d. cache_get (snd (getNpmignore E c s)) k = Some d \<longrightarrow> \<not> match d ''package.json''"
    proof (intro allI impI)
      fix k d
      assume a: "cache_get (snd (getNpmignore E c s)) k = Some d"
      show "\<not> match d ''package.json''"
      proof (cases "cache_get c k = Some d")
        case True
        with inv show ?thesis by blast
      next
        case False
        with a have "d = fst (getNpmignore E c s)"
          by (auto simp: getNpmignore_def Let_def cache_get_def cache_put_def
              split: option.splits if_splits)
        with r show ?thesis by simp
      qed
    qed
    with r show "\<not> match (fst (getNpmignore E c s)) ''package.json'' \<and>
      (\<forall>k d. cache_get (snd (getNpmignore E c s)) k = Some d \<longrightarrow> \<not> match d ''package.json'')"
      by (rule conjI)
  qed
  have b: "\<forall>p. getPackageJson E s = Some p \<and>
        (cache_get c (filePath p) = None \<or>
         cache_get c (filePath p) = Some (fst (getNpmignore E Map.empty s))) \<longrightarrow>
      (\<forall>path. Some (path_join E (path_dirname E (filePath p)) path) = mainFilePath E p
         \<longrightarrow> \<not> match (fst (getNpmignore E c s)) path) \<and>
      (\<forall>m. main p = JStr m \<longrightarrow>
         mainFilePath E p = Some (path_join E (path_dirname E (filePath p)) m) \<and>
         \<not> match (fst (getNpmignore E c s)) m)"
  proof (intro allI impI)
    fix p
    assume h: "getPackageJson E s = Some p \<and>
        (cache_get c (filePath p) = None \<or>
         cache_get c (filePath p) = Some (fst (getNpmignore E Map.empty s)))"
    then have p: "getPackageJson E s = Some p" by simp
    have e: "cache_get Map.empty (filePath p) = None" by (simp add: cache_get_def)
    have cur: "fst (getNpmignore E c s) = fst (getNpmignore E Map.empty s)"
    proof (cases "cache_get c (filePath p)")
      case None
      with p show ?thesis by (simp add: getNpmignore_def cache_get_def Let_def)
    next
      case (Some d)
      with h have "d = fst (getNpmignore E Map.empty s)" by simp
      with Some p show ?thesis by (simp add: getNpmignore_def)
    qed
    have prot: "\<And>path. Some (path_join E (path_dirname E (filePath p)) path) = mainFilePath E p
            \<Longrightarrow> \<not> match (fst (getNpmignore E c s)) path"
    proof
      fix path
      assume j: "Some (path_join E (path_dirname E (filePath p)) path) = mainFilePath E p"
        and m: "match (fst (getNpmignore E c s)) path"
      from m cur have "match (fst (getNpmignore E Map.empty s)) path" by simp
      with p e have "filterNeverIgnoredFiles E p path"
        by (auto simp: getNpmignore_def Let_def and_fn_def alwaysFalse_def split: option.splits)
      with j show False by (simp add: filterNeverIgnoredFiles_def)
    qed
    have one: "\<forall>path. Some (path_join E (path_dirname E (filePath p)) path) = mainFilePath E p
         \<longrightarrow> \<not> match (fst (getNpmignore E c s)) path"
      using prot by blast
    have two: "\<forall>m. main p = JStr m \<longrightarrow>
         mainFilePath E p = Some (path_join E (path_dirname E (filePath p)) m) \<and>
         \<not> match (fst (getNpmignore E c s)) m"
    proof (intro allI impI)
      fix m
      assume "main p = JStr m"
      then have mp: "mainFilePath E p = Some (path_join E (path_dirname E (filePath p)) m)"
        by (simp add: mainFilePath_def)
      then have "\<not> match (fst (getNpmignore E c s)) m" by (intro prot) simp
      with mp show "mainFilePath E p = Some (path_join E (path_dirname E (filePath p)) m) \<and>
         \<not> match (fst (getNpmignore E c s)) m" by simp
    qed
    from one two show "(\<forall>path. Some (path_join E (path_dirname E (filePath p)) path) = mainFilePath E p
         \<longrightarrow> \<not> match (fst (getNpmignore E c s)) path) \<and>
      (\<forall>m. main p = JStr m \<longrightarrow>
         mainFilePath E p = Some (path_join E (path_dirname E (filePath p)) m) \<and>
         \<not> match (fst (getNpmignore E c s)) m)" by (rule conjI)
  qed
  have c: "\<forall>p d. getPackageJson E s = Some p \<and> cache_get c (filePath p) = Some d \<longrightarrow>
      getNpmignore E c s = (d, c)"
    by (simp add: getNpmignore_def)
  from a b c show ?thesis by (intro conjI) assumption+
qed

text \<open>
  With an \<^verbatim>\<open>.npmignore\<close> that holds \<^verbatim>\<open>*\<close> and \<^verbatim>\<open>main: "index.js"\<close>, resolved on the empty
  cache: the file \<^verbatim>\<open>a.js\<close> is ignorable, \<^verbatim>\<open>index.js\<close> and \<^verbatim>\<open>package.json\<close> are not.
\<close>

theorem manifest_and_main_protected_witness:
  "(\<forall>k. cache_get Map.empty k = None) \<and>
   getPackageJson env_npmignore_star ''/pkg/a.js'' = Some (pkg JUndefined (JStr ''index.js'')) \<and>
   main (pkg JUndefined (JStr ''index.js'')) = JStr ''index.js'' \<and>
   match (fst (getNpmignore env_npmignore_star Map.empty ''/pkg/a.js'')) ''a.js'' \<and>
   \<not> match (fst (getNpmignore env_npmignore_star Map.empty ''/pkg/a.js'')) ''index.js'' \<and>
   \<not> match (fst (getNpmignore env_npmignore_star Map.empty ''/pkg/a.js'')) ''package.json''"
proof -
  let ?p = "pkg JUndefined (JStr ''index.js'')"
  have e: "\<forall>k. cache_get Map.empty k = None" by (simp add: cache_get_def)
  then have inv: "\<forall>k d. cache_get Map.empty k = Some d \<longrightarrow> \<not> match d ''package.json''"
    by simp
  have h1: "getPackageJson env_npmignore_star ''/pkg/a.js'' = Some ?p"
    by (simp add: env_npmignore_star_def sample_env_def)
  have h2: "cache_get Map.empty (filePath ?p) = None \<or>
            cache_get Map.empty (filePath ?p) =
              Some (fst (getNpmignore env_npmignore_star Map.empty ''/pkg/a.js''))"
    using e by simp
  have h3: "main ?p = JStr ''index.js''" by (simp add: pkg_def)
  note t = manifest_and_main_protected[of Map.empty env_npmignore_star "''/pkg/a.js''"]
  have a: "match (fst (getNpmignore env_npmignore_star Map.empty ''/pkg/a.js'')) ''a.js''"
    by code_simp
  from t[THEN conjunct2, THEN conjunct1, THEN spec, THEN mp, OF conjI[OF h1 h2],
      THEN conjunct2, THEN spec, THEN mp, OF h3]
  have r1: "\<not> match (fst (getNpmignore env_npmignore_star Map.empty ''/pkg/a.js'')) ''index.js''"
    by (rule conjunct2)
  from t[THEN conjunct1, THEN mp, OF inv]
  have r2: "\<not> match (fst (getNpmignore env_npmignore_star Map.empty ''/pkg/a.js'')) ''package.json''"
    by (rule conjunct1)
  from e h1 h3 a r1 r2 show ?thesis by (intro conjI) assumption+
qed

text \<open>
  Claim C6 as the specification states it fails for a Matcher served from the cache after
  \<^verbatim>\<open>main\<close> has changed. The package is resolved while \<^verbatim>\<open>main\<close> is \<^verbatim>\<open>index.js\<close>; then \<^verbatim>\<open>main\<close>
  becomes \<^verbatim>\<open>other.js\<close> and the package is resolved again, with the entry still in the
  cache. The second Matcher is the first one: it reports \<^verbatim>\<open>other.js\<close>, the resolved entry
  file of the manifest at hand, as ignorable.
\<close>

theorem stale_main_counterexample:
  "getPackageJson env_main_other ''/pkg/a.js'' = Some (pkg JUndefined (JStr ''other.js'')) \<and>
   mainFilePath env_main_other (pkg JUndefined (JStr ''other.js'')) =
     Some (path_join env_main_other
             (path_dirname env_main_other (filePath (pkg JUndefined (JStr ''other.js''))))
             ''other.js'') \<and>
   match (fst (getNpmignore env_main_other
                 (snd (getNpmignore env_npmignore_star Map.empty ''/pkg/a.js'')) ''/pkg/a.js''))
     ''other.js''"
proof -
  have a: "getPackageJson env_main_other ''/pkg/a.js'' = Some (pkg JUndefined (JStr ''other.js''))"
    by (simp add: env_main_other_def sample_env_def)
  have b: "mainFilePath env_main_other (pkg JUndefined (JStr ''other.js'')) =
     Some (path_join env_main_other
             (path_dirname env_main_other (filePath (pkg JUndefined (JStr ''other.js''))))
             ''other.js'')"
    by (simp add: mainFilePath_def pkg_def)
  have c: "match (fst (getNpmignore env_main_other
                 (snd (getNpmignore env_npmignore_star Map.empty ''/pkg/a.js'')) ''/pkg/a.js''))
     ''other.js''"
    by code_simp
  from a b c show ?thesis by (intro conjI) assumption+
qed

text \<open>
  Claim C7. If no manifest is found for the start path, \<open>match\<close> is the function
  \<open>alwaysFalse\<close>: false at every path, whatever the cache holds. If a manifest is found,
  its Matcher is computed, and neither \<open>parseWhiteList\<close> nor \<open>parseNpmignore\<close> returns a
  predicate, \<open>match\<close> is \<open>alwaysFalse\<close> too.
\<close>

theorem getNpmignore_nothing_ignored:
  "(getPackageJson E s = None \<longrightarrow>
      match (fst (getNpmignore E c s)) = alwaysFalse \<and>
      (\<forall>path. \<not> match (fst (getNpmignore E c s)) path)) \<and>
   (\<forall>p. getPackageJson E s = Some p \<and> cache_get c (filePath p) = None \<and>
        parseWhiteList E (files p) = None \<and>
        parseNpmignore E (path_dirname E (filePath p)) False = None \<longrightarrow>
      match (fst (getNpmignore E c s)) = alwaysFalse \<and>
      (\<forall>path. \<not> match (fst (getNpmignore E c s)) path))"
  by (simp add: getNpmignore_no_manifest getNpmignore_neither alwaysFalse_def)

text \<open>
  A directory with no manifest, and a package with no \<^verbatim>\<open>files\<close> field and no ignore file.
\<close>

theorem getNpmignore_nothing_ignored_witness:
  "getPackageJson env_no_manifest ''/tmp/a.js'' = None \<and>
   (\<forall>path. \<not> match (fst (getNpmignore env_no_manifest Map.empty ''/tmp/a.js'')) path) \<and>
   getPackageJson env_bare ''/pkg/a.js'' = Some (pkg JUndefined JUndefined) \<and>
   cache_get Map.empty (filePath (pkg JUndefined JUndefined)) = None \<and>
   parseWhiteList env_bare (files (pkg JUndefined JUndefined)) = None \<and>
   parseNpmignore env_bare (path_dirname env_bare (filePath (pkg JUndefined JUndefined))) False = None \<and>
   (\<forall>path. \<not> match (fst (getNpmignore env_bare Map.empty ''/pkg/a.js'')) path)"
proof -
  let ?p = "pkg JUndefined JUndefined"
  have a1: "getPackageJson env_no_manifest ''/tmp/a.js'' = None"
    by (simp add: env_no_manifest_def sample_env_def)
  have b1: "getPackageJson env_bare ''/pkg/a.js'' = Some ?p"
    by (simp add: env_bare_def sample_env_def)
  have b2: "cache_get Map.empty (filePath ?p) = None"
    by (simp add: cache_get_def)
  have b3: "parseWhiteList env_bare (files ?p) = None"
    by (simp add: parseWhiteList_def pkg_def)
  have b4: "parseNpmignore env_bare (path_dirname env_bare (filePath ?p)) False = None"
    by (simp add: parseNpmignore_def env_bare_def sample_env_def)
  note t = getNpmignore_nothing_ignored
  from t[of env_no_manifest "''/tmp/a.js''" Map.empty] a1
  have a: "\<forall>path. \<not> match (fst (getNpmignore env_no_manifest Map.empty ''/tmp/a.js'')) path"
    by blast
  from t[of env_bare "''/pkg/a.js''" Map.empty] b1 b2 b3 b4
  have b: "\<forall>path. \<not> match (fst (getNpmignore env_bare Map.empty ''/pkg/a.js'')) path"
    by blast
  from a1 a b1 b2 b3 b4 b show ?thesis by blast
qed



text \<open>
  Claim C9. When \<^verbatim>\<open>main\<close> is not a string, \<^verbatim>\<open>mainFilePath\<close> is \<^verbatim>\<open>null\<close>, no joined path
  equals it, and the filter is decided by its two other clauses alone: the entry-file
  clause never makes it false.
\<close>

theorem absent_main_protects_nothing:
  assumes "\<not> isString (main p)"
  shows "mainFilePath E p = None \<and>
         (\<forall>path. Some (path_join E (path_dirname E (filePath p)) path) \<noteq> mainFilePath E p) \<and>
         (\<forall>path. filterNeverIgnoredFiles E p path =
                   (path \<noteq> ''package.json'' \<and> \<not> NEVER_IGNORED_test (path_basename E path)))"
proof -
  from assms have "mainFilePath E p = None"
    by (cases "main p") (simp_all add: mainFilePath_def)
  then show ?thesis by (simp add: filterNeverIgnoredFiles_def)
qed

text \<open>
  Without \<^verbatim>\<open>main\<close>, the path \<^verbatim>\<open>null\<close> passes the filter, and with an \<^verbatim>\<open>.npmignore\<close> that
  holds \<^verbatim>\<open>*\<close> it is ignorable.
\<close>

theorem absent_main_protects_nothing_witness:
  "\<not> isString (main (pkg JUndefined JUndefined)) \<and>
   mainFilePath env_no_main (pkg JUndefined JUndefined) = None \<and>
   filterNeverIgnoredFiles env_no_main (pkg JUndefined JUndefined) ''null'' \<and>
   match (fst (getNpmignore env_no_main Map.empty ''/pkg/a.js'')) ''null''"
proof -
  let ?p = "pkg JUndefined JUndefined"
  have h: "\<not> isString (main ?p)" by (simp add: pkg_def)
  note t = absent_main_protects_nothing[OF h, of env_no_main]
  have n: "\<not> NEVER_IGNORED_test (path_basename env_no_main ''null'')" by code_simp
  have d: "''null'' \<noteq> ''package.json''" by simp
  from t n d have f: "filterNeverIgnoredFiles env_no_main ?p ''null''" by blast
  have m: "match (fst (getNpmignore env_no_main Map.empty ''/pkg/a.js'')) ''null''" by code_simp
  from h t f m show ?thesis by blast
qed

text \<open>
  Claim C10. With the POSIX \<^verbatim>\<open>path.basename\<close>, a file whose own name passes
  \<open>NEVER_IGNORED\<close> is never reported ignorable, in whatever directory \<open>d\<close> it lies;
  \<^verbatim>\<open>docs/CHANGELOG.md\<close> is one. The manifest clause compares the whole path: at
  \<^verbatim>\<open>sub/package.json\<close> it holds, and so does the clause of the protected names, so the
  filter there is decided by the entry-file clause alone.
\<close>

theorem protected_name_at_any_depth:
  assumes "path_basename E = basename_posix"
    and "\<forall>k d path. cache_get c k = Some d \<and> NEVER_IGNORED_test (path_basename E path)
           \<longrightarrow> \<not> match d path"
  shows "(\<forall>d n. NEVER_IGNORED_test n \<and> CHR ''/'' \<notin> set n
            \<longrightarrow> \<not> match (fst (getNpmignore E c s)) (d @ ''/'' @ n)) \<and>
         \<not> match (fst (getNpmignore E c s)) ''docs/CHANGELOG.md'' \<and>
         (\<forall>p. filterNeverIgnoredFiles E p ''sub/package.json'' =
                (Some (path_join E (path_dirname E (filePath p)) ''sub/package.json'')
                   \<noteq> mainFilePath E p))"
proof -
  note g = getNpmignore_protects[OF assms(2), of s]
  have deep: "\<forall>d n. NEVER_IGNORED_test n \<and> CHR ''/'' \<notin> set n
            \<longrightarrow> \<not> match (fst (getNpmignore E c s)) (d @ ''/'' @ n)"
  proof (intro allI impI)
    fix d n
    assume a: "NEVER_IGNORED_test n \<and> CHR ''/'' \<notin> set n"
    then have "n \<noteq> []" using NEVER_IGNORED_nonempty by blast
    with a have "basename_posix (d @ ''/'' @ n) = n"
      by (intro basename_posix_nested) simp_all
    then have "path_basename E (d @ ''/'' @ n) = n"
      using assms(1) by simp
    with a g show "\<not> match (fst (getNpmignore E c s)) (d @ ''/'' @ n)" by metis
  qed
  have c1: "NEVER_IGNORED_test ''CHANGELOG.md''" by code_simp
  have c2: "CHR ''/'' \<notin> set ''CHANGELOG.md''" by simp
  have c3: "''docs'' @ ''/'' @ ''CHANGELOG.md'' = ''docs/CHANGELOG.md''" by simp
  from deep c1 c2 have "\<not> match (fst (getNpmignore E c s)) (''docs'' @ ''/'' @ ''CHANGELOG.md'')"
    by blast
  with c3 have ex: "\<not> match (fst (getNpmignore E c s)) ''docs/CHANGELOG.md''" by simp
  have b: "basename_posix ''sub/package.json'' = ''package.json''" by code_simp
  have nn: "\<not> NEVER_IGNORED_test ''package.json''" by code_simp
  have ne: "''sub/package.json'' \<noteq> ''package.json''" by simp
  have sub: "\<forall>p. filterNeverIgnoredFiles E p ''sub/package.json'' =
                (Some (path_join E (path_dirname E (filePath p)) ''sub/package.json'')
                   \<noteq> mainFilePath E p)"
    using assms(1) b nn ne by (simp add: filterNeverIgnoredFiles_def)
  from deep ex sub show ?thesis by blast
qed

text \<open>
  With an \<^verbatim>\<open>.npmignore\<close> that holds \<^verbatim>\<open>*\<close>: \<^verbatim>\<open>docs/CHANGELOG.md\<close> and \<^verbatim>\<open>package.json\<close> are not
  ignorable, \<^verbatim>\<open>sub/package.json\<close> is.
\<close>

theorem protected_name_at_any_depth_witness:
  "path_basename env_npmignore_star = basename_posix \<and>
   (\<forall>k. cache_get Map.empty k = None) \<and>
   \<not> match (fst (getNpmignore env_npmignore_star Map.empty ''/pkg/a.js'')) ''docs/CHANGELOG.md'' \<and>
   \<not> match (fst (getNpmignore env_npmignore_star Map.empty ''/pkg/a.js'')) ''package.json'' \<and>
   match (fst (getNpmignore env_npmignore_star Map.empty ''/pkg/a.js'')) ''sub/package.json''"
proof -
  have h1: "path_basename env_npmignore_star = basename_posix"
    by (simp add: env_npmignore_star_def sample_env_def)
  have e: "\<forall>k. cache_get Map.empty k = None" by (simp add: cache_get_def)
  then have inv: "\<forall>k d path. cache_get Map.empty k = Some d \<and>
      NEVER_IGNORED_test (path_basename env_npmignore_star path) \<longrightarrow> \<not> match d path"
    by simp
  note t = protected_name_at_any_depth[OF h1 inv, of "''/pkg/a.js''"]
  have r2: "\<not> match (fst (getNpmignore env_npmignore_star Map.empty ''/pkg/a.js'')) ''package.json''"
    by code_simp
  have r3: "match (fst (getNpmignore env_npmignore_star Map.empty ''/pkg/a.js'')) ''sub/package.json''"
    by code_simp
  from t h1 e r2 r3 show ?thesis by blast
qed

end
